theory Spec2Isabelle
  imports Complex_Main
begin

section \<open>Climbing force analysis: peaks, plateaus and rate of force development\<close>

text \<open>
  The script \<^verbatim>\<open>climbing_analysis.py\<close> reads a recording into a table, converts the
  \<^verbatim>\<open>samples\<close> column from kg to newtons, finds the peaks of the force signal, groups the
  peaks into plateaus by the time between consecutive peaks, and computes one result row
  per plateau. The two columns \<^verbatim>\<open>timestamps\<close> and \<^verbatim>\<open>signal\<close> are lists of the same
  length; a peak is a position in them. Python floats are modelled by \<open>real\<close>, so
  every statement below is about exact arithmetic: rounding, infinities and NaN are outside
  the model.
\<close>

subsection \<open>Constants and failures\<close>

definition GRAVITY :: real where
  "GRAVITY = 981 / 100"

definition BODY_MASS :: real where
  "BODY_MASS = 60"

text \<open>Line 42: the grouping threshold, in milliseconds.\<close>

definition threshold :: real where
  "threshold = 5000"

text \<open>Line 67: the baseline of the signal, in newtons.\<close>

definition baseline :: real where
  "baseline = 1 / 10"

text \<open>
  The exceptions the analysis can raise: \<^verbatim>\<open>IndexError\<close> from a position outside an array
  or a column, \<^verbatim>\<open>ValueError\<close> from \<^verbatim>\<open>max\<close> of an empty sequence.
\<close>

datatype error = IndexError | ValueError

text \<open>
  \<^verbatim>\<open>column.iloc[i]\<close> for a position \<open>i\<close> that is not negative: the element, or
  \<^verbatim>\<open>IndexError\<close> past the end. Peaks are positions counted from 0, never negative.
\<close>

definition iloc :: "'a list \<Rightarrow> nat \<Rightarrow> error + 'a" where
  "iloc xs i = (if i < length xs then Inr (xs ! i) else Inl IndexError)"

subsection \<open>Unit conversion\<close>

text \<open>Line 27: \<^verbatim>\<open>data['samples'] * GRAVITY\<close>, for one sample and for the column.\<close>

definition to_newtons :: "real \<Rightarrow> real" where
  "to_newtons kg = kg * GRAVITY"

definition samples_to_newtons :: "real list \<Rightarrow> real list" where
  "samples_to_newtons samples = map to_newtons samples"

text \<open>Lines 85 and 87: \<^verbatim>\<open>peak_value / GRAVITY\<close>, \<^verbatim>\<open>rfd / GRAVITY\<close>.\<close>

definition to_kg :: "real \<Rightarrow> real" where
  "to_kg newtons = newtons / GRAVITY"

subsection \<open>Grouping peaks into plateaus (lines 44 to 54)\<close>

text \<open>
  The loop \<^verbatim>\<open>for i in range(1, len(peaks))\<close> reads \<^verbatim>\<open>peaks[i]\<close> and \<^verbatim>\<open>peaks[i - 1]\<close>:
  the recursion runs over the peaks from the second one on and carries the peak before
  (\<open>prev\<close>), the plateaus closed so far and the plateau being filled.
\<close>

fun group_loop ::
  "real list \<Rightarrow> nat \<Rightarrow> nat list \<Rightarrow> nat list list \<Rightarrow> nat list \<Rightarrow> error + nat list list" where
  "group_loop timestamps prev [] plateaus current_plateau =
     Inr (plateaus @ [current_plateau])"
| "group_loop timestamps prev (p # rest) plateaus current_plateau =
     (case iloc timestamps p of
        Inl e \<Rightarrow> Inl e
      | Inr tp \<Rightarrow>
          (case iloc timestamps prev of
             Inl e \<Rightarrow> Inl e
           | Inr tprev \<Rightarrow>
               if tp - tprev < threshold
               then group_loop timestamps p rest plateaus (current_plateau @ [p])
               else group_loop timestamps p rest (plateaus @ [current_plateau]) [p]))"

text \<open>
  Line 46, \<^verbatim>\<open>current_plateau = [peaks[0]]\<close>, raises \<^verbatim>\<open>IndexError\<close> when there is no
  peak.
\<close>

definition group_plateaus :: "real list \<Rightarrow> nat list \<Rightarrow> error + nat list list" where
  "group_plateaus timestamps peaks =
     (case peaks of
        [] \<Rightarrow> Inl IndexError
      | p0 # rest \<Rightarrow> group_loop timestamps p0 rest [] [p0])"

subsection \<open>One result row per plateau (lines 60 to 89)\<close>

text \<open>
  Line 62: \<^verbatim>\<open>max(plateau, key=lambda idx: signal.iloc[idx])\<close>. Python's \<^verbatim>\<open>max\<close> keeps
  the element it holds unless the key of the next one is greater, and raises
  \<^verbatim>\<open>ValueError\<close> on an empty sequence.
\<close>

fun max_loop :: "real list \<Rightarrow> nat \<Rightarrow> real \<Rightarrow> nat list \<Rightarrow> error + nat" where
  "max_loop signal best best_key [] = Inr best"
| "max_loop signal best best_key (idx # rest) =
     (case iloc signal idx of
        Inl e \<Rightarrow> Inl e
      | Inr k \<Rightarrow>
          if k > best_key then max_loop signal idx k rest
          else max_loop signal best best_key rest)"

definition highest_peak_idx :: "real list \<Rightarrow> nat list \<Rightarrow> error + nat" where
  "highest_peak_idx signal plateau =
     (case plateau of
        [] \<Rightarrow> Inl ValueError
      | idx # rest \<Rightarrow>
          (case iloc signal idx of
             Inl e \<Rightarrow> Inl e
           | Inr k \<Rightarrow> max_loop signal idx k rest))"

text \<open>
  Lines 65 to 69: \<^verbatim>\<open>for idx in range(start_idx - 1, -1, -1)\<close>. \<open>onset_scan signal start n\<close>
  visits \<open>n - 1\<close>, ..., \<open>0\<close>, stops at the first position whose force is at most the
  baseline, and keeps \<open>start\<close> when the range is exhausted.
\<close>

fun onset_scan :: "real list \<Rightarrow> nat \<Rightarrow> nat \<Rightarrow> error + nat" where
  "onset_scan signal start 0 = Inr start"
| "onset_scan signal start (Suc idx) =
     (case iloc signal idx of
        Inl e \<Rightarrow> Inl e
      | Inr v \<Rightarrow> if v \<le> baseline then Inr idx else onset_scan signal start idx)"

definition start_idx :: "real list \<Rightarrow> nat list \<Rightarrow> error + nat" where
  "start_idx signal plateau =
     (case plateau of
        [] \<Rightarrow> Inl IndexError
      | p0 # rest \<Rightarrow> onset_scan signal p0 p0)"

text \<open>Line 74.\<close>

definition time_to_peak :: "real \<Rightarrow> real \<Rightarrow> real" where
  "time_to_peak start_time peak_time = (peak_time - start_time) / 1000"

text \<open>Line 78: \<^verbatim>\<open>None\<close> is the absent value.\<close>

definition rfd :: "real \<Rightarrow> real \<Rightarrow> real option" where
  "rfd peak_value ttp = (if ttp > 0 then Some (peak_value / ttp) else None)"

text \<open>The dictionary appended to \<^verbatim>\<open>rfd_results\<close>, one field per key.\<close>

record rfd_result =
  plateau_start_time :: real
  peak_time :: real
  time_to_peak_s :: real
  peak_value_kg :: real
  peak_value_N :: real
  rfd_kg_s :: "real option"
  rfd_N_s :: "real option"

definition rfd_row :: "real list \<Rightarrow> real list \<Rightarrow> nat list \<Rightarrow> error + rfd_result" where
  "rfd_row timestamps signal plateau =
     (case highest_peak_idx signal plateau of
        Inl e \<Rightarrow> Inl e
      | Inr hi \<Rightarrow>
          (case start_idx signal plateau of
             Inl e \<Rightarrow> Inl e
           | Inr si \<Rightarrow>
               (case iloc timestamps si of
                  Inl e \<Rightarrow> Inl e
                | Inr start_time \<Rightarrow>
                    (case iloc timestamps hi of
                       Inl e \<Rightarrow> Inl e
                     | Inr ptime \<Rightarrow>
                         (case iloc signal hi of
                            Inl e \<Rightarrow> Inl e
                          | Inr peak_value \<Rightarrow>
                              (let ttp = time_to_peak start_time ptime;
                                   r = rfd peak_value ttp
                               in Inr \<lparr> plateau_start_time = start_time,
                                        peak_time = ptime,
                                        time_to_peak_s = ttp,
                                        peak_value_kg = to_kg peak_value,
                                        peak_value_N = peak_value,
                                        rfd_kg_s = (case r of None \<Rightarrow> None
                                                    | Some v \<Rightarrow> Some (to_kg v)),
                                        rfd_N_s = (case r of None \<Rightarrow> None
                                                   | Some v \<Rightarrow> Some v) \<rparr>))))))"

text \<open>The loop \<^verbatim>\<open>for plateau in plateaus\<close>: the first exception ends the run.\<close>

fun rfd_loop ::
  "real list \<Rightarrow> real list \<Rightarrow> nat list list \<Rightarrow> rfd_result list \<Rightarrow> error + rfd_result list" where
  "rfd_loop timestamps signal [] rfd_results = Inr rfd_results"
| "rfd_loop timestamps signal (plateau # rest) rfd_results =
     (case rfd_row timestamps signal plateau of
        Inl e \<Rightarrow> Inl e
      | Inr row \<Rightarrow> rfd_loop timestamps signal rest (rfd_results @ [row]))"

text \<open>Lines 44 to 89, from the two columns and the peaks to the result rows.\<close>

definition analyse :: "real list \<Rightarrow> real list \<Rightarrow> nat list \<Rightarrow> error + rfd_result list" where
  "analyse timestamps signal peaks =
     (case group_plateaus timestamps peaks of
        Inl e \<Rightarrow> Inl e
      | Inr plateaus \<Rightarrow> rfd_loop timestamps signal plateaus [])"

subsection \<open>The peak finder (line 35)\<close>

text \<open>
  Modelled from the spec: the Peak Finder is \<^verbatim>\<open>scipy.signal.find_peaks\<close>, called at
  line 35 with the signal alone; it is a library routine and its code is not in the
  repository. Section 4.1 of the spec describes it as the standard local-maximum
  definition: a point is a peak if it is not smaller than adjacent points and the sequence
  has a genuine rise and fall around it. The definitions below follow the scan the library
  documents for that (\<^verbatim>\<open>_local_maxima_1d\<close>): the first and the last sample are never
  peaks; at a sample greater than the one before, the scan looks ahead over the samples
  equal to it, and when the next different sample is smaller it reports the middle of the
  flat run, rounded down, and continues after the run. Every read is inside the signal:
  \<open>1 \<le> i < i_max\<close> and \<open>i_ahead \<le> i_max\<close>, where \<open>i_max\<close> is the last position.
\<close>

function look_ahead :: "real list \<Rightarrow> nat \<Rightarrow> nat \<Rightarrow> nat \<Rightarrow> nat" where
  "look_ahead x i i_max i_ahead =
     (if i_ahead < i_max \<and> x ! i_ahead = x ! i
      then look_ahead x i i_max (i_ahead + 1)
      else i_ahead)"
  by pat_completeness auto
termination
  by (relation "measure (\<lambda>(x, i, i_max, i_ahead). i_max - i_ahead)") auto

text \<open>The equations of both scans are unfolded by hand, one step at a time.\<close>

declare look_ahead.simps [simp del]

lemma look_ahead_step:
  "i_ahead < i_max \<Longrightarrow> x ! i_ahead = x ! i \<Longrightarrow>
   look_ahead x i i_max i_ahead = look_ahead x i i_max (i_ahead + 1)"
  by (simp add: look_ahead.simps[of x i i_max i_ahead])

lemma look_ahead_stop:
  "\<not> (i_ahead < i_max \<and> x ! i_ahead = x ! i) \<Longrightarrow> look_ahead x i i_max i_ahead = i_ahead"
  by (auto simp: look_ahead.simps[of x i i_max i_ahead])

lemma look_ahead_ge: "i_ahead \<le> look_ahead x i i_max i_ahead"
proof (induction x i i_max i_ahead rule: look_ahead.induct)
  case (1 x i i_max i_ahead)
  show ?case
  proof (cases "i_ahead < i_max \<and> x ! i_ahead = x ! i")
    case True
    with 1 have "i_ahead + 1 \<le> look_ahead x i i_max (i_ahead + 1)" by simp
    with True show ?thesis by (simp add: look_ahead_step)
  next
    case False
    then show ?thesis by (simp add: look_ahead_stop)
  qed
qed

function local_maxima_loop :: "real list \<Rightarrow> nat \<Rightarrow> nat \<Rightarrow> nat list \<Rightarrow> nat list" where
  "local_maxima_loop x i_max i midpoints =
     (if i < i_max then
        (if x ! (i - 1) < x ! i then
           (let i_ahead = look_ahead x i i_max (i + 1) in
            if x ! i_ahead < x ! i
            then local_maxima_loop x i_max (i_ahead + 1)
                   (midpoints @ [(i + (i_ahead - 1)) div 2])
            else local_maxima_loop x i_max (i + 1) midpoints)
         else local_maxima_loop x i_max (i + 1) midpoints)
      else midpoints)"
  by pat_completeness auto
termination
proof (relation "measure (\<lambda>(x, i_max, i, midpoints). i_max - i)", goal_cases)
  case 1
  show ?case by simp
next
  case (2 x i_max i midpoints i_ahead)
  have "i + 1 \<le> look_ahead x i i_max (i + 1)"
    by (rule look_ahead_ge)
  with 2 show ?case by simp
next
  case 3
  then show ?case by simp
next
  case 4
  then show ?case by simp
qed

declare local_maxima_loop.simps [simp del]

definition find_peaks :: "real list \<Rightarrow> nat list" where
  "find_peaks x = local_maxima_loop x (length x - 1) 1 []"

text \<open>Lines 27 to 89: from the timestamps and the samples in kg to the result rows.\<close>

definition climbing_analysis :: "real list \<Rightarrow> real list \<Rightarrow> error + rfd_result list" where
  "climbing_analysis timestamps samples =
     (let signal = samples_to_newtons samples;
          peaks = find_peaks signal
      in analyse timestamps signal peaks)"

subsection \<open>Properties of a grouping\<close>

text \<open>
  Two predicates for the statements about plateaus: inside a plateau every peak is closer
  than the threshold to the peak before it; from one plateau to the next the gap is at
  least the threshold.
\<close>

definition close_chain :: "real list \<Rightarrow> nat list \<Rightarrow> bool" where
  "close_chain ts pl \<longleftrightarrow>
     (\<forall>i. Suc i < length pl \<longrightarrow> ts ! (pl ! Suc i) - ts ! (pl ! i) < threshold)"

definition far_apart :: "real list \<Rightarrow> nat list list \<Rightarrow> bool" where
  "far_apart ts pls \<longleftrightarrow>
     (\<forall>j. Suc j < length pls \<longrightarrow> threshold \<le> ts ! hd (pls ! Suc j) - ts ! last (pls ! j))"

text \<open>
  A predicate for the statements about the peak finder: position \<open>m\<close> is the middle,
  rounded down, of a run of equal samples from \<open>l\<close> to \<open>r\<close> that lies inside the
  signal and whose neighbours on both sides are smaller.
\<close>

definition flat_peak :: "real list \<Rightarrow> nat \<Rightarrow> bool" where
  "flat_peak x m \<longleftrightarrow>
     (\<exists>l r. 0 < l \<and> l \<le> m \<and> m \<le> r \<and> Suc r < length x \<and> m = (l + r) div 2 \<and>
            (\<forall>k. l \<le> k \<and> k \<le> r \<longrightarrow> x ! k = x ! m) \<and>
            x ! (l - 1) < x ! m \<and> x ! (r + 1) < x ! m)"

section \<open>The plateau grouping\<close>

lemma group_loop_total:
  "prev < length ts \<Longrightarrow> \<forall>p\<in>set rest. p < length ts \<Longrightarrow>
   \<exists>pls. group_loop ts prev rest plateaus cur = Inr pls"
  by (induction rest arbitrary: prev plateaus cur) (auto simp: iloc_def)

lemma group_loop_concat:
  "group_loop ts prev rest plateaus cur = Inr pls \<Longrightarrow>
   concat pls = concat plateaus @ cur @ rest"
  by (induction rest arbitrary: prev plateaus cur)
     (auto simp: iloc_def split: if_splits)

lemma group_loop_nonempty:
  "group_loop ts prev rest plateaus cur = Inr pls \<Longrightarrow> cur \<noteq> [] \<Longrightarrow>
   \<forall>pl\<in>set plateaus. pl \<noteq> [] \<Longrightarrow> pl \<in> set pls \<Longrightarrow> pl \<noteq> []"
  by (induction rest arbitrary: prev plateaus cur)
     (auto simp: iloc_def split: if_splits)

lemma group_plateaus_total:
  assumes "peaks \<noteq> []" and "\<forall>p\<in>set peaks. p < length ts"
  shows "\<exists>pls. group_plateaus ts peaks = Inr pls"
proof -
  from assms(1) obtain p0 rest where peaks: "peaks = p0 # rest"
    by (cases peaks) auto
  with assms(2) have "p0 < length ts" "\<forall>p\<in>set rest. p < length ts"
    by simp_all
  then have "\<exists>pls. group_loop ts p0 rest [] [p0] = Inr pls"
    by (rule group_loop_total)
  with peaks show ?thesis
    by (simp add: group_plateaus_def)
qed

lemma group_plateaus_concat:
  assumes "group_plateaus ts peaks = Inr pls"
  shows "concat pls = peaks"
proof (cases peaks)
  case Nil
  with assms show ?thesis by (simp add: group_plateaus_def)
next
  case (Cons p0 rest)
  with assms have "group_loop ts p0 rest [] [p0] = Inr pls"
    by (simp add: group_plateaus_def)
  from group_loop_concat[OF this] Cons show ?thesis by simp
qed

lemma group_plateaus_nonempty:
  assumes "group_plateaus ts peaks = Inr pls" and "pl \<in> set pls"
  shows "pl \<noteq> []"
proof (cases peaks)
  case Nil
  with assms show ?thesis by (simp add: group_plateaus_def)
next
  case (Cons p0 rest)
  with assms have "group_loop ts p0 rest [] [p0] = Inr pls"
    by (simp add: group_plateaus_def)
  from group_loop_nonempty[OF this _ _ assms(2)] show ?thesis by simp
qed

lemma concat_unique_index:
  assumes "distinct (concat pls)" "j < length pls" "k < length pls"
    "p \<in> set (pls ! j)" "p \<in> set (pls ! k)"
  shows "j = k"
  using assms
proof (induction pls arbitrary: j k)
  case Nil then show ?case by simp
next
  case (Cons a pls)
  show ?case
  proof (cases j)
    case 0
    show ?thesis
    proof (cases k)
      case 0 with \<open>j = 0\<close> show ?thesis by simp
    next
      case (Suc k')
      with Cons.prems 0 have "p \<in> set a" "p \<in> set (concat pls)" by auto
      with Cons.prems(1) show ?thesis by auto
    qed
  next
    case (Suc j')
    show ?thesis
    proof (cases k)
      case 0
      with Cons.prems Suc have "p \<in> set a" "p \<in> set (concat pls)" by auto
      with Cons.prems(1) show ?thesis by auto
    next
      case (Suc k')
      with Cons.prems \<open>j = Suc j'\<close> have "j' = k'" by (intro Cons.IH) auto
      with Suc \<open>j = Suc j'\<close> show ?thesis by simp
    qed
  qed
qed

text \<open>
  C3. For a non-empty list of peaks that are positions of the timestamp column, the
  grouping returns plateaus, none of them empty, whose concatenation is the list of peaks:
  the plateaus keep the order of the peaks, omit none and repeat none. When the peaks are
  pairwise different (as positions are), every peak lies in exactly one plateau. No order
  of the timestamps is needed for this.
\<close>

theorem plateaus_partition_peaks:
  assumes "peaks \<noteq> []" and "\<forall>p\<in>set peaks. p < length timestamps"
  shows "\<exists>plateaus. group_plateaus timestamps peaks = Inr plateaus \<and>
           concat plateaus = peaks \<and>
           (\<forall>pl\<in>set plateaus. pl \<noteq> []) \<and>
           (distinct peaks \<longrightarrow>
              (\<forall>p\<in>set peaks. \<exists>!j. j < length plateaus \<and> p \<in> set (plateaus ! j)))"
proof -
  from group_plateaus_total[OF assms] obtain pls
    where run: "group_plateaus timestamps peaks = Inr pls" ..
  have cc: "concat pls = peaks"
    using run by (rule group_plateaus_concat)
  have ne: "\<forall>pl\<in>set pls. pl \<noteq> []"
    using group_plateaus_nonempty[OF run] by blast
  have uniq: "\<exists>!j. j < length pls \<and> p \<in> set (pls ! j)"
    if d: "distinct peaks" and p: "p \<in> set peaks" for p
  proof -
    from p cc have "p \<in> set (concat pls)" by simp
    then obtain pl where "pl \<in> set pls" "p \<in> set pl" by auto
    then obtain j where j: "j < length pls" "p \<in> set (pls ! j)"
      by (auto simp: in_set_conv_nth)
    from d cc have "distinct (concat pls)" by simp
    then have "k = j" if "k < length pls \<and> p \<in> set (pls ! k)" for k
      using that j by (blast intro: concat_unique_index)
    with j show ?thesis by blast
  qed
  show ?thesis
  proof (intro exI conjI impI ballI)
    show "group_plateaus timestamps peaks = Inr pls" by (rule run)
    show "concat pls = peaks" by (rule cc)
    show "pl \<noteq> []" if "pl \<in> set pls" for pl using ne that by simp
    show "\<exists>!j. j < length pls \<and> p \<in> set (pls ! j)"
      if "distinct peaks" "p \<in> set peaks" for p using that by (rule uniq)
  qed
qed

theorem plateaus_partition_peaks_witness:
  "\<exists>plateaus. group_plateaus [0, 100, 200, 300, 400, 500, 600, 700, 800, 900] [3, 7]
                 = Inr plateaus \<and>
     concat plateaus = [3, 7] \<and>
     (\<forall>pl\<in>set plateaus. pl \<noteq> []) \<and>
     (distinct [3, 7 :: nat] \<longrightarrow>
        (\<forall>p\<in>set [3, 7]. \<exists>!j. j < length plateaus \<and> p \<in> set (plateaus ! j)))"
  by (rule plateaus_partition_peaks) simp_all

lemma close_chain_single: "close_chain ts [p]"
  by (simp add: close_chain_def)

lemma close_chain_snoc:
  assumes "cur \<noteq> []"
  shows "close_chain ts (cur @ [p]) \<longleftrightarrow>
         close_chain ts cur \<and> ts ! p - ts ! last cur < threshold"
proof
  assume h: "close_chain ts (cur @ [p])"
  have "close_chain ts cur"
    unfolding close_chain_def
  proof (intro allI impI)
    fix i assume "Suc i < length cur"
    with h[unfolded close_chain_def, rule_format, of i] show "ts ! (cur ! Suc i) - ts ! (cur ! i) < threshold"
      by (simp add: nth_append)
  qed
  moreover from assms obtain n where n: "length cur = Suc n" by (cases cur) auto
  with h[unfolded close_chain_def, rule_format, of n] assms
  have "ts ! p - ts ! last cur < threshold"
    by (simp add: nth_append last_conv_nth)
  ultimately show "close_chain ts cur \<and> ts ! p - ts ! last cur < threshold" by simp
next
  assume h: "close_chain ts cur \<and> ts ! p - ts ! last cur < threshold"
  show "close_chain ts (cur @ [p])"
    unfolding close_chain_def
  proof (intro allI impI)
    fix i assume i: "Suc i < length (cur @ [p])"
    show "ts ! ((cur @ [p]) ! Suc i) - ts ! ((cur @ [p]) ! i) < threshold"
    proof (cases "Suc i < length cur")
      case True
      with h show ?thesis by (simp add: close_chain_def nth_append)
    next
      case False
      with i have "i = length cur - 1" "Suc i = length cur" by simp_all
      with h assms show ?thesis by (simp add: nth_append last_conv_nth)
    qed
  qed
qed

lemma far_apart_single: "far_apart ts [c]"
  by (simp add: far_apart_def)

lemma far_apart_snoc:
  assumes "pls \<noteq> []"
  shows "far_apart ts (pls @ [d]) \<longleftrightarrow>
         far_apart ts pls \<and> threshold \<le> ts ! hd d - ts ! last (last pls)"
proof
  assume h: "far_apart ts (pls @ [d])"
  have "far_apart ts pls"
    unfolding far_apart_def
  proof (intro allI impI)
    fix j assume "Suc j < length pls"
    with h[unfolded far_apart_def, rule_format, of j]
    show "threshold \<le> ts ! hd (pls ! Suc j) - ts ! last (pls ! j)"
      by (simp add: nth_append)
  qed
  moreover from assms obtain n where n: "length pls = Suc n" by (cases pls) auto
  with h[unfolded far_apart_def, rule_format, of n] assms
  have "threshold \<le> ts ! hd d - ts ! last (last pls)"
    by (simp add: nth_append last_conv_nth)
  ultimately show "far_apart ts pls \<and> threshold \<le> ts ! hd d - ts ! last (last pls)" by simp
next
  assume h: "far_apart ts pls \<and> threshold \<le> ts ! hd d - ts ! last (last pls)"
  show "far_apart ts (pls @ [d])"
    unfolding far_apart_def
  proof (intro allI impI)
    fix j assume j: "Suc j < length (pls @ [d])"
    show "threshold \<le> ts ! hd ((pls @ [d]) ! Suc j) - ts ! last ((pls @ [d]) ! j)"
    proof (cases "Suc j < length pls")
      case True
      with h show ?thesis by (simp add: far_apart_def nth_append)
    next
      case False
      with j have "j = length pls - 1" "Suc j = length pls" by simp_all
      with h assms show ?thesis by (simp add: nth_append last_conv_nth)
    qed
  qed
qed

lemma far_apart_extend_last:
  assumes "c \<noteq> []"
  shows "far_apart ts (pls @ [c @ [p]]) \<longleftrightarrow> far_apart ts (pls @ [c])"
proof (cases "pls = []")
  case True
  then show ?thesis by (simp add: far_apart_single)
next
  case False
  with assms show ?thesis by (simp add: far_apart_snoc)
qed

lemma group_loop_gaps:
  assumes "group_loop ts prev rest plateaus cur = Inr pls"
    and "cur \<noteq> []" and "last cur = prev"
    and "\<forall>pl\<in>set plateaus. close_chain ts pl"
    and "close_chain ts cur"
    and "far_apart ts (plateaus @ [cur])"
  shows "(\<forall>pl\<in>set pls. close_chain ts pl) \<and> far_apart ts pls"
  using assms
proof (induction rest arbitrary: prev plateaus cur)
  case Nil
  then show ?case by auto
next
  case (Cons p rest)
  from Cons.prems(1) have inr: "p < length ts" "prev < length ts"
    by (auto simp: iloc_def split: if_splits)
  show ?case
  proof (cases "ts ! p - ts ! prev < threshold")
    case True
    with Cons.prems(1) inr
    have run: "group_loop ts p rest plateaus (cur @ [p]) = Inr pls"
      by (simp add: iloc_def)
    show ?thesis
    proof (rule Cons.IH[OF run])
      show "close_chain ts (cur @ [p])"
        using Cons.prems True by (simp add: close_chain_snoc)
      show "far_apart ts (plateaus @ [cur @ [p]])"
        using Cons.prems by (simp add: far_apart_extend_last)
    qed (use Cons.prems in simp_all)
  next
    case False
    with Cons.prems(1) inr
    have run: "group_loop ts p rest (plateaus @ [cur]) [p] = Inr pls"
      by (simp add: iloc_def)
    show ?thesis
    proof (rule Cons.IH[OF run])
      show "far_apart ts ((plateaus @ [cur]) @ [[p]])"
        using Cons.prems False by (simp add: far_apart_snoc del: append_assoc)
    qed (use Cons.prems in \<open>simp_all add: close_chain_single\<close>)
  qed
qed

lemma group_plateaus_gaps:
  assumes "group_plateaus ts peaks = Inr pls"
  shows "(\<forall>pl\<in>set pls. close_chain ts pl) \<and> far_apart ts pls"
proof (cases peaks)
  case Nil
  with assms show ?thesis by (simp add: group_plateaus_def)
next
  case (Cons p0 rest)
  with assms have "group_loop ts p0 rest [] [p0] = Inr pls"
    by (simp add: group_plateaus_def)
  then show ?thesis
    by (rule group_loop_gaps) (simp_all add: close_chain_single far_apart_single)
qed

lemma long_chain_example:
  "group_plateaus [0, 3000, 6000, 9000] [0, 1, 2, 3] = Inr [[0, 1, 2, 3]]"
  by code_simp

text \<open>
  C4. In every plateau the grouping returns, each peak is less than 5000 ms after the peak
  before it, and the first peak of a plateau is at least 5000 ms after the last peak of the
  plateau before. A peak is compared with the peak just before it only, so a plateau can
  span more than 5000 ms: four peaks 3000 ms apart form one plateau of 9000 ms.
\<close>

theorem plateau_gaps:
  assumes "group_plateaus timestamps peaks = Inr plateaus"
  shows "(\<forall>pl\<in>set plateaus. \<forall>i. Suc i < length pl \<longrightarrow>
            timestamps ! (pl ! Suc i) - timestamps ! (pl ! i) < 5000) \<and>
         (\<forall>j. Suc j < length plateaus \<longrightarrow>
            5000 \<le> timestamps ! hd (plateaus ! Suc j) - timestamps ! last (plateaus ! j)) \<and>
         (\<exists>ts pks pl. group_plateaus ts pks = Inr [pl] \<and> 5000 < ts ! last pl - ts ! hd pl)"
proof -
  from group_plateaus_gaps[OF assms]
  have "\<forall>pl\<in>set plateaus. close_chain timestamps pl" and "far_apart timestamps plateaus"
    by simp_all
  then have
    "\<forall>pl\<in>set plateaus. \<forall>i. Suc i < length pl \<longrightarrow>
        timestamps ! (pl ! Suc i) - timestamps ! (pl ! i) < 5000"
    "\<forall>j. Suc j < length plateaus \<longrightarrow>
        5000 \<le> timestamps ! hd (plateaus ! Suc j) - timestamps ! last (plateaus ! j)"
    by (simp_all add: close_chain_def far_apart_def threshold_def)
  moreover have
    "\<exists>ts pks pl. group_plateaus ts pks = Inr [pl] \<and> 5000 < ts ! last pl - ts ! hd pl"
  proof (intro exI conjI)
    show "group_plateaus [0, 3000, 6000, 9000] [0, 1, 2, 3] = Inr [[0, 1, 2, 3]]"
      by (rule long_chain_example)
    show "5000 < [0, 3000, 6000, 9000 :: real] ! last [0, 1, 2, 3] -
            [0, 3000, 6000, 9000] ! hd [0, 1, 2, 3]"
      by simp
  qed
  ultimately show ?thesis by blast
qed

theorem plateau_gaps_witness:
  "group_plateaus [0, 3000, 6000, 20000] [0, 1, 2, 3] = Inr [[0, 1, 2], [3]] \<and>
   [0, 3000, 6000, 20000 :: real] ! 2 - [0, 3000, 6000, 20000] ! 1 < 5000 \<and>
   5000 \<le> [0, 3000, 6000, 20000 :: real] ! 3 - [0, 3000, 6000, 20000] ! 2"
proof -
  have run: "group_plateaus [0, 3000, 6000, 20000] [0, 1, 2, 3] = Inr [[0, 1, 2], [3]]"
    by code_simp
  note gaps = plateau_gaps[OF run]
  from gaps[THEN conjunct1, rule_format, of "[0, 1, 2]" 1]
    gaps[THEN conjunct2, THEN conjunct1, rule_format, of 0] run
  show ?thesis by simp
qed

section \<open>The onset of a plateau\<close>

lemma onset_scan_result:
  assumes "n \<le> length signal"
  shows "\<exists>s. onset_scan signal start n = Inr s \<and>
           ((\<exists>i<n. signal ! i \<le> baseline) \<longrightarrow>
              s < n \<and> signal ! s \<le> baseline \<and> (\<forall>i. s < i \<and> i < n \<longrightarrow> baseline < signal ! i)) \<and>
           (\<not> (\<exists>i<n. signal ! i \<le> baseline) \<longrightarrow> s = start)"
  using assms
proof (induction n)
  case 0
  show ?case by simp
next
  case (Suc n)
  then have n: "n < length signal" by simp
  show ?case
  proof (cases "signal ! n \<le> baseline")
    case True
    with n have "onset_scan signal start (Suc n) = Inr n"
      by (simp add: iloc_def)
    moreover have "\<forall>i. n < i \<and> i < Suc n \<longrightarrow> baseline < signal ! i" by simp
    ultimately show ?thesis using True by auto
  next
    case False
    with n have step: "onset_scan signal start (Suc n) = onset_scan signal start n"
      by (simp add: iloc_def)
    from Suc.IH n obtain s where s: "onset_scan signal start n = Inr s"
      and found: "(\<exists>i<n. signal ! i \<le> baseline) \<longrightarrow>
              s < n \<and> signal ! s \<le> baseline \<and> (\<forall>i. s < i \<and> i < n \<longrightarrow> baseline < signal ! i)"
      and none: "\<not> (\<exists>i<n. signal ! i \<le> baseline) \<longrightarrow> s = start"
      by auto
    from False have same: "(\<exists>i<Suc n. signal ! i \<le> baseline) \<longleftrightarrow> (\<exists>i<n. signal ! i \<le> baseline)"
      by (auto simp: less_Suc_eq)
    have "s < Suc n \<and> signal ! s \<le> baseline \<and> (\<forall>i. s < i \<and> i < Suc n \<longrightarrow> baseline < signal ! i)"
      if "\<exists>i<Suc n. signal ! i \<le> baseline"
    proof -
      from that same found
      have f: "s < n" "signal ! s \<le> baseline" "\<forall>i. s < i \<and> i < n \<longrightarrow> baseline < signal ! i"
        by simp_all
      have "baseline < signal ! i" if "s < i \<and> i < Suc n" for i
      proof (cases "i = n")
        case True
        with False show ?thesis by simp
      next
        case False
        with that f(3) show ?thesis by (simp add: less_Suc_eq)
      qed
      with f show ?thesis by simp
    qed
    moreover have "s = start" if "\<not> (\<exists>i<Suc n. signal ! i \<le> baseline)"
      using that same none by simp
    ultimately show ?thesis using step s by simp
  qed
qed

text \<open>
  C1, as the claim states it, fails: for the signal 1, 2, 1 with its peak at position 1, no
  sample before the peak is at most 0.1, and the onset is position 1, the first peak
  itself; it is neither less than the first peak nor position 0.
\<close>

theorem onset_below_first_peak_counterexample:
  "start_idx [1, 2, 1] [1] = Inr 1 \<and> \<not> (1 :: nat) < hd [1] \<and> (1 :: nat) \<noteq> 0 \<and>
   \<not> [1, 2, 1 :: real] ! 0 \<le> 1 / 10"
  by (simp add: start_idx_def iloc_def baseline_def)

text \<open>
  C1, amended. For a plateau whose first peak is a position of the signal, the onset search
  returns a position that is at most the first peak. When some sample before the first peak
  is at most 0.1, the onset is the last such position, and it is less than the first peak;
  when no sample before the first peak is at most 0.1, the onset is the first peak itself.
\<close>

theorem onset_at_most_first_peak:
  assumes "plateau \<noteq> []" and "hd plateau < length signal"
  shows "\<exists>s. start_idx signal plateau = Inr s \<and> s \<le> hd plateau \<and>
           ((\<exists>i<hd plateau. signal ! i \<le> 1 / 10) \<longrightarrow>
              s < hd plateau \<and> signal ! s \<le> 1 / 10 \<and>
              (\<forall>i. s < i \<and> i < hd plateau \<longrightarrow> 1 / 10 < signal ! i)) \<and>
           (\<not> (\<exists>i<hd plateau. signal ! i \<le> 1 / 10) \<longrightarrow> s = hd plateau)"
proof -
  from assms(1) obtain p0 rest where pl: "plateau = p0 # rest"
    by (cases plateau) auto
  with assms(2) have "p0 \<le> length signal" by simp
  from onset_scan_result[OF this, of p0] obtain s
    where s: "onset_scan signal p0 p0 = Inr s"
      and found: "(\<exists>i<p0. signal ! i \<le> baseline) \<longrightarrow>
              s < p0 \<and> signal ! s \<le> baseline \<and> (\<forall>i. s < i \<and> i < p0 \<longrightarrow> baseline < signal ! i)"
      and none: "\<not> (\<exists>i<p0. signal ! i \<le> baseline) \<longrightarrow> s = p0"
    by blast
  from found none have "s \<le> p0"
    by (cases "\<exists>i<p0. signal ! i \<le> baseline") simp_all
  with s found none pl show ?thesis
    by (simp add: start_idx_def baseline_def)
qed

theorem onset_at_most_first_peak_witness:
  "start_idx [0, 0, 0, 50, 0, 0, 0, 80, 0, 0] [3, 7] = Inr 2 \<and>
   (\<exists>s. start_idx [0, 0, 0, 50, 0, 0, 0, 80, 0, 0] [3, 7] = Inr s \<and> s \<le> hd [3, 7] \<and>
      ((\<exists>i<hd [3, 7]. [0, 0, 0, 50, 0, 0, 0, 80, 0, 0 :: real] ! i \<le> 1 / 10) \<longrightarrow>
         s < hd [3, 7] \<and> [0, 0, 0, 50, 0, 0, 0, 80, 0, 0 :: real] ! s \<le> 1 / 10 \<and>
         (\<forall>i. s < i \<and> i < hd [3, 7] \<longrightarrow> 1 / 10 < [0, 0, 0, 50, 0, 0, 0, 80, 0, 0 :: real] ! i)) \<and>
      (\<not> (\<exists>i<hd [3, 7]. [0, 0, 0, 50, 0, 0, 0, 80, 0, 0 :: real] ! i \<le> 1 / 10) \<longrightarrow>
         s = hd [3, 7]))"
proof
  show "start_idx [0, 0, 0, 50, 0, 0, 0, 80, 0, 0] [3, 7] = Inr 2"
    by code_simp
next
  show "\<exists>s. start_idx [0, 0, 0, 50, 0, 0, 0, 80, 0, 0] [3, 7] = Inr s \<and> s \<le> hd [3, 7] \<and>
      ((\<exists>i<hd [3, 7]. [0, 0, 0, 50, 0, 0, 0, 80, 0, 0 :: real] ! i \<le> 1 / 10) \<longrightarrow>
         s < hd [3, 7] \<and> [0, 0, 0, 50, 0, 0, 0, 80, 0, 0 :: real] ! s \<le> 1 / 10 \<and>
         (\<forall>i. s < i \<and> i < hd [3, 7] \<longrightarrow> 1 / 10 < [0, 0, 0, 50, 0, 0, 0, 80, 0, 0 :: real] ! i)) \<and>
      (\<not> (\<exists>i<hd [3, 7]. [0, 0, 0, 50, 0, 0, 0, 80, 0, 0 :: real] ! i \<le> 1 / 10) \<longrightarrow>
         s = hd [3, 7])"
    by (rule onset_at_most_first_peak) simp_all
qed

section \<open>The highest peak of a plateau\<close>

lemma max_loop_first_maximum:
  assumes "\<forall>p\<in>set rest. p < length signal"
    and "k < length pre" and "best = pre ! k" and "best_key = signal ! best"
    and "\<forall>j<length pre. signal ! (pre ! j) \<le> best_key"
    and "\<forall>j<k. signal ! (pre ! j) < best_key"
  shows "\<exists>m<length (pre @ rest).
           max_loop signal best best_key rest = Inr ((pre @ rest) ! m) \<and>
           (\<forall>j<length (pre @ rest). signal ! ((pre @ rest) ! j) \<le> signal ! ((pre @ rest) ! m)) \<and>
           (\<forall>j<m. signal ! ((pre @ rest) ! j) < signal ! ((pre @ rest) ! m))"
  using assms
proof (induction rest arbitrary: pre k best best_key)
  case Nil
  then show ?case by auto
next
  case (Cons p rest)
  from Cons.prems(1) have p: "p < length signal" and rest: "\<forall>q\<in>set rest. q < length signal"
    by simp_all
  show ?case
  proof (cases "best_key < signal ! p")
    case True
    with p have step: "max_loop signal best best_key (p # rest) = max_loop signal p (signal ! p) rest"
      by (simp add: iloc_def)
    have "\<exists>m<length ((pre @ [p]) @ rest).
           max_loop signal p (signal ! p) rest = Inr (((pre @ [p]) @ rest) ! m) \<and>
           (\<forall>j<length ((pre @ [p]) @ rest).
              signal ! (((pre @ [p]) @ rest) ! j) \<le> signal ! (((pre @ [p]) @ rest) ! m)) \<and>
           (\<forall>j<m. signal ! (((pre @ [p]) @ rest) ! j) < signal ! (((pre @ [p]) @ rest) ! m))"
    proof (rule Cons.IH[OF rest, where k = "length pre"])
      show "length pre < length (pre @ [p])" by simp
      show "p = (pre @ [p]) ! length pre" by simp
      show "signal ! p = signal ! p" ..
      show "\<forall>j<length (pre @ [p]). signal ! ((pre @ [p]) ! j) \<le> signal ! p"
        using Cons.prems(5) True by (auto simp: nth_append less_Suc_eq dest: spec)
      show "\<forall>j<length pre. signal ! ((pre @ [p]) ! j) < signal ! p"
        using Cons.prems(5) True by (auto simp: nth_append dest: spec)
    qed
    with step show ?thesis by simp
  next
    case False
    with p have step: "max_loop signal best best_key (p # rest) = max_loop signal best best_key rest"
      by (simp add: iloc_def)
    have "\<exists>m<length ((pre @ [p]) @ rest).
           max_loop signal best best_key rest = Inr (((pre @ [p]) @ rest) ! m) \<and>
           (\<forall>j<length ((pre @ [p]) @ rest).
              signal ! (((pre @ [p]) @ rest) ! j) \<le> signal ! (((pre @ [p]) @ rest) ! m)) \<and>
           (\<forall>j<m. signal ! (((pre @ [p]) @ rest) ! j) < signal ! (((pre @ [p]) @ rest) ! m))"
    proof (rule Cons.IH[OF rest, where k = k])
      show "k < length (pre @ [p])" using Cons.prems(2) by simp
      show "best = (pre @ [p]) ! k" using Cons.prems(2,3) by (simp add: nth_append)
      show "best_key = signal ! best" by (rule Cons.prems(4))
      show "\<forall>j<length (pre @ [p]). signal ! ((pre @ [p]) ! j) \<le> best_key"
        using Cons.prems(5) False by (auto simp: nth_append less_Suc_eq)
      show "\<forall>j<k. signal ! ((pre @ [p]) ! j) < best_key"
        using Cons.prems(2,6) by (auto simp: nth_append)
    qed
    with step show ?thesis by simp
  qed
qed

text \<open>
  C6. For a non-empty plateau of positions of the signal, the highest peak is a function of
  the signal and the plateau, and it is the first element of the plateau whose force is
  maximal: no element of the plateau has a greater force, and every element before it has
  a smaller one.
\<close>

theorem highest_peak_first_maximum:
  assumes "plateau \<noteq> []" and "\<forall>p\<in>set plateau. p < length signal"
  shows "\<exists>k<length plateau.
           highest_peak_idx signal plateau = Inr (plateau ! k) \<and>
           (\<forall>j<length plateau. signal ! (plateau ! j) \<le> signal ! (plateau ! k)) \<and>
           (\<forall>j<k. signal ! (plateau ! j) < signal ! (plateau ! k))"
proof -
  from assms(1) obtain p0 rest where pl: "plateau = p0 # rest"
    by (cases plateau) auto
  with assms(2) have p0: "p0 < length signal" and rest: "\<forall>q\<in>set rest. q < length signal"
    by simp_all
  have "\<exists>m<length ([p0] @ rest).
           max_loop signal p0 (signal ! p0) rest = Inr (([p0] @ rest) ! m) \<and>
           (\<forall>j<length ([p0] @ rest). signal ! (([p0] @ rest) ! j) \<le> signal ! (([p0] @ rest) ! m)) \<and>
           (\<forall>j<m. signal ! (([p0] @ rest) ! j) < signal ! (([p0] @ rest) ! m))"
    by (rule max_loop_first_maximum[OF rest, where k = 0]) simp_all
  moreover from p0 pl
  have "highest_peak_idx signal plateau = max_loop signal p0 (signal ! p0) rest"
    by (simp add: highest_peak_idx_def iloc_def)
  ultimately show ?thesis using pl by simp
qed

theorem highest_peak_first_maximum_witness:
  "highest_peak_idx [0, 5, 0, 5, 0] [1, 3] = Inr 1 \<and>
   (\<exists>k<length [1, 3 :: nat].
      highest_peak_idx [0, 5, 0, 5, 0] [1, 3] = Inr ([1, 3] ! k) \<and>
      (\<forall>j<length [1, 3 :: nat].
         [0, 5, 0, 5, 0 :: real] ! ([1, 3] ! j) \<le> [0, 5, 0, 5, 0] ! ([1, 3] ! k)) \<and>
      (\<forall>j<k. [0, 5, 0, 5, 0 :: real] ! ([1, 3] ! j) < [0, 5, 0, 5, 0] ! ([1, 3] ! k)))"
proof
  show "highest_peak_idx [0, 5, 0, 5, 0] [1, 3] = Inr 1"
    by code_simp
next
  show "\<exists>k<length [1, 3 :: nat].
      highest_peak_idx [0, 5, 0, 5, 0] [1, 3] = Inr ([1, 3] ! k) \<and>
      (\<forall>j<length [1, 3 :: nat].
         [0, 5, 0, 5, 0 :: real] ! ([1, 3] ! j) \<le> [0, 5, 0, 5, 0] ! ([1, 3] ! k)) \<and>
      (\<forall>j<k. [0, 5, 0, 5, 0 :: real] ! ([1, 3] ! j) < [0, 5, 0, 5, 0] ! ([1, 3] ! k))"
    by (rule highest_peak_first_maximum) simp_all
qed

section \<open>The result rows\<close>

lemma start_idx_at_most_first_peak:
  assumes "plateau \<noteq> []" and "hd plateau < length signal"
  shows "\<exists>s. start_idx signal plateau = Inr s \<and> s \<le> hd plateau"
proof -
  from assms(1) obtain p0 rest where pl: "plateau = p0 # rest"
    by (cases plateau) auto
  with assms(2) have "p0 \<le> length signal" by simp
  from onset_scan_result[OF this, of p0] obtain s
    where s: "onset_scan signal p0 p0 = Inr s"
      and found: "(\<exists>i<p0. signal ! i \<le> baseline) \<longrightarrow> s < p0"
      and none: "\<not> (\<exists>i<p0. signal ! i \<le> baseline) \<longrightarrow> s = p0"
    by blast
  from found none have "s \<le> p0"
    by (cases "\<exists>i<p0. signal ! i \<le> baseline") simp_all
  with s pl show ?thesis
    by (simp add: start_idx_def)
qed

lemma highest_peak_idx_in_plateau:
  assumes "plateau \<noteq> []" and "\<forall>p\<in>set plateau. p < length signal"
  shows "\<exists>k<length plateau. highest_peak_idx signal plateau = Inr (plateau ! k)"
proof -
  from assms(1) obtain p0 rest where pl: "plateau = p0 # rest"
    by (cases plateau) auto
  with assms(2) have p0: "p0 < length signal" and rest: "\<forall>q\<in>set rest. q < length signal"
    by simp_all
  have "\<exists>m<length ([p0] @ rest).
           max_loop signal p0 (signal ! p0) rest = Inr (([p0] @ rest) ! m) \<and>
           (\<forall>j<length ([p0] @ rest). signal ! (([p0] @ rest) ! j) \<le> signal ! (([p0] @ rest) ! m)) \<and>
           (\<forall>j<m. signal ! (([p0] @ rest) ! j) < signal ! (([p0] @ rest) ! m))"
    by (rule max_loop_first_maximum[OF rest, where k = 0]) simp_all
  then obtain m where "m < length ([p0] @ rest)"
    "max_loop signal p0 (signal ! p0) rest = Inr (([p0] @ rest) ! m)"
    by blast
  moreover from p0 pl
  have "highest_peak_idx signal plateau = max_loop signal p0 (signal ! p0) rest"
    by (simp add: highest_peak_idx_def iloc_def)
  ultimately show ?thesis using pl by auto
qed

lemma rfd_row_fields:
  assumes "rfd_row ts signal plateau = Inr row"
  shows "\<exists>h s. highest_peak_idx signal plateau = Inr h \<and> start_idx signal plateau = Inr s \<and>
           s < length ts \<and> h < length ts \<and> h < length signal \<and>
           plateau_start_time row = ts ! s \<and>
           peak_time row = ts ! h \<and>
           time_to_peak_s row = (ts ! h - ts ! s) / 1000 \<and>
           peak_value_N row = signal ! h \<and>
           peak_value_kg row = signal ! h / GRAVITY \<and>
           rfd_N_s row = rfd (signal ! h) ((ts ! h - ts ! s) / 1000) \<and>
           rfd_kg_s row = map_option (\<lambda>v. v / GRAVITY) (rfd (signal ! h) ((ts ! h - ts ! s) / 1000))"
proof -
  from assms obtain h where h: "highest_peak_idx signal plateau = Inr h"
    by (cases "highest_peak_idx signal plateau") (simp_all add: rfd_row_def)
  from assms h obtain s where s: "start_idx signal plateau = Inr s"
    by (cases "start_idx signal plateau") (simp_all add: rfd_row_def)
  from assms h s have sl: "s < length ts"
    by (cases "s < length ts") (simp_all add: rfd_row_def iloc_def)
  from assms h s sl have hl: "h < length ts"
    by (cases "h < length ts") (simp_all add: rfd_row_def iloc_def)
  from assms h s sl hl have hs: "h < length signal"
    by (cases "h < length signal") (simp_all add: rfd_row_def iloc_def)
  from assms h s sl hl hs
  have row: "row = \<lparr> plateau_start_time = ts ! s, peak_time = ts ! h,
      time_to_peak_s = (ts ! h - ts ! s) / 1000,
      peak_value_kg = signal ! h / GRAVITY, peak_value_N = signal ! h,
      rfd_kg_s = (case rfd (signal ! h) ((ts ! h - ts ! s) / 1000) of
                    None \<Rightarrow> None | Some v \<Rightarrow> Some (to_kg v)),
      rfd_N_s = (case rfd (signal ! h) ((ts ! h - ts ! s) / 1000) of
                    None \<Rightarrow> None | Some v \<Rightarrow> Some v) \<rparr>"
    by (simp add: rfd_row_def iloc_def time_to_peak_def to_kg_def Let_def)
  have "rfd_N_s row = rfd (signal ! h) ((ts ! h - ts ! s) / 1000)"
    by (simp add: row split: option.split)
  moreover have "rfd_kg_s row =
      map_option (\<lambda>v. v / GRAVITY) (rfd (signal ! h) ((ts ! h - ts ! s) / 1000))"
    by (simp add: row to_kg_def split: option.split)
  ultimately show ?thesis using h s sl hl hs by (simp add: row)
qed

lemma rfd_row_total:
  assumes "plateau \<noteq> []" and "\<forall>p\<in>set plateau. p < length signal"
    and "length ts = length signal"
  shows "\<exists>row. rfd_row ts signal plateau = Inr row"
proof -
  from assms(1,2) have "hd plateau < length signal" by simp
  from start_idx_at_most_first_peak[OF assms(1) this] obtain s
    where s: "start_idx signal plateau = Inr s" "s \<le> hd plateau" by blast
  with \<open>hd plateau < length signal\<close> have sl: "s < length signal" by simp
  from highest_peak_idx_in_plateau[OF assms(1,2)] obtain k
    where k: "k < length plateau" "highest_peak_idx signal plateau = Inr (plateau ! k)"
    by blast
  with assms(2) have hl: "plateau ! k < length signal" by simp
  from s k sl hl assms(3) show ?thesis
    by (simp add: rfd_row_def iloc_def Let_def)
qed

lemma rfd_loop_rows:
  assumes "\<forall>pl\<in>set plateaus. \<exists>row. rfd_row ts signal pl = Inr row"
  shows "rfd_loop ts signal plateaus acc =
           Inr (acc @ map (\<lambda>pl. projr (rfd_row ts signal pl)) plateaus)"
  using assms
proof (induction plateaus arbitrary: acc)
  case Nil
  show ?case by simp
next
  case (Cons pl plateaus)
  from Cons.prems obtain row where row: "rfd_row ts signal pl = Inr row" by auto
  from Cons.prems have "\<forall>q\<in>set plateaus. \<exists>row. rfd_row ts signal q = Inr row" by simp
  from Cons.IH[OF this, of "acc @ [row]"] row show ?case by simp
qed

lemma rfd_loop_pointwise:
  assumes "\<forall>pl\<in>set plateaus. pl \<noteq> [] \<and> (\<forall>p\<in>set pl. p < length signal)"
    and "length ts = length signal"
  shows "\<exists>rows. rfd_loop ts signal plateaus [] = Inr rows \<and> length rows = length plateaus \<and>
           (\<forall>i<length plateaus. rfd_row ts signal (plateaus ! i) = Inr (rows ! i))"
proof -
  have total: "\<forall>pl\<in>set plateaus. \<exists>row. rfd_row ts signal pl = Inr row"
    using assms by (auto intro: rfd_row_total)
  let ?rows = "map (\<lambda>pl. projr (rfd_row ts signal pl)) plateaus"
  from rfd_loop_rows[OF total, of "[]"]
  have run: "rfd_loop ts signal plateaus [] = Inr ?rows" by simp
  have "rfd_row ts signal (plateaus ! i) = Inr (?rows ! i)" if "i < length plateaus" for i
  proof -
    from that have "plateaus ! i \<in> set plateaus" by simp
    with total obtain row where "rfd_row ts signal (plateaus ! i) = Inr row" by blast
    with that show ?thesis by simp
  qed
  with run show ?thesis by simp
qed

text \<open>
  C5. For plateaus that are non-empty lists of positions of the signal, the loop returns
  one row per plateau, and row \<open>i\<close> is the row computed from plateau \<open>i\<close> alone. In every
  row both rate fields are absent when the time to peak is not positive; when it is
  positive, the rate in N/s is the peak force divided by the time to peak and the rate in
  kg/s is that quotient divided by 9.81.
\<close>

theorem rfd_absent_unless_positive_time:
  assumes "\<forall>pl\<in>set plateaus. pl \<noteq> [] \<and> (\<forall>p\<in>set pl. p < length signal)"
    and "length timestamps = length signal"
  shows "\<exists>rows. rfd_loop timestamps signal plateaus [] = Inr rows \<and>
           length rows = length plateaus \<and>
           (\<forall>i<length plateaus.
              rfd_row timestamps signal (plateaus ! i) = Inr (rows ! i) \<and>
              (time_to_peak_s (rows ! i) \<le> 0 \<longrightarrow>
                 rfd_N_s (rows ! i) = None \<and> rfd_kg_s (rows ! i) = None) \<and>
              (0 < time_to_peak_s (rows ! i) \<longrightarrow>
                 rfd_N_s (rows ! i) =
                   Some (peak_value_N (rows ! i) / time_to_peak_s (rows ! i)) \<and>
                 rfd_kg_s (rows ! i) =
                   Some (peak_value_N (rows ! i) / time_to_peak_s (rows ! i) / (981 / 100))))"
proof -
  from rfd_loop_pointwise[OF assms] obtain rows
    where run: "rfd_loop timestamps signal plateaus [] = Inr rows"
      and len: "length rows = length plateaus"
      and each: "\<forall>i<length plateaus. rfd_row timestamps signal (plateaus ! i) = Inr (rows ! i)"
    by blast
  have "(time_to_peak_s (rows ! i) \<le> 0 \<longrightarrow>
           rfd_N_s (rows ! i) = None \<and> rfd_kg_s (rows ! i) = None) \<and>
        (0 < time_to_peak_s (rows ! i) \<longrightarrow>
           rfd_N_s (rows ! i) = Some (peak_value_N (rows ! i) / time_to_peak_s (rows ! i)) \<and>
           rfd_kg_s (rows ! i) =
             Some (peak_value_N (rows ! i) / time_to_peak_s (rows ! i) / (981 / 100)))"
    if "i < length plateaus" for i
  proof -
    from each that have "rfd_row timestamps signal (plateaus ! i) = Inr (rows ! i)" by simp
    from rfd_row_fields[OF this] obtain h s
      where t: "time_to_peak_s (rows ! i) = (timestamps ! h - timestamps ! s) / 1000"
        and n: "peak_value_N (rows ! i) = signal ! h"
        and rn: "rfd_N_s (rows ! i) =
                   rfd (signal ! h) ((timestamps ! h - timestamps ! s) / 1000)"
        and rk: "rfd_kg_s (rows ! i) =
                   map_option (\<lambda>v. v / GRAVITY)
                     (rfd (signal ! h) ((timestamps ! h - timestamps ! s) / 1000))"
      by blast
    have "rfd_N_s (rows ! i) = rfd (peak_value_N (rows ! i)) (time_to_peak_s (rows ! i))"
      and "rfd_kg_s (rows ! i) =
             map_option (\<lambda>v. v / GRAVITY)
               (rfd (peak_value_N (rows ! i)) (time_to_peak_s (rows ! i)))"
      by (simp_all only: t n rn rk)
    then show ?thesis
      by (simp add: rfd_def GRAVITY_def)
  qed
  with run len each show ?thesis by simp
qed

theorem rfd_absent_unless_positive_time_witness:
  "rfd_loop [0, 100, 200, 6000, 6100, 6200] [1, 2, 1, 0, 3, 0] [[1], [4]] [] =
     Inr [\<lparr> plateau_start_time = 100, peak_time = 100, time_to_peak_s = 0,
             peak_value_kg = 200 / 981, peak_value_N = 2,
             rfd_kg_s = None, rfd_N_s = None \<rparr>,
          \<lparr> plateau_start_time = 6000, peak_time = 6100, time_to_peak_s = 1 / 10,
             peak_value_kg = 300 / 981, peak_value_N = 3,
             rfd_kg_s = Some (3000 / 981), rfd_N_s = Some 30 \<rparr>] \<and>
   (\<exists>rows. rfd_loop [0, 100, 200, 6000, 6100, 6200] [1, 2, 1, 0, 3, 0] [[1], [4]] [] = Inr rows \<and>
           length rows = length [[1], [4 :: nat]] \<and>
           (\<forall>i<length [[1], [4 :: nat]].
              rfd_row [0, 100, 200, 6000, 6100, 6200] [1, 2, 1, 0, 3, 0] ([[1], [4]] ! i)
                = Inr (rows ! i) \<and>
              (time_to_peak_s (rows ! i) \<le> 0 \<longrightarrow>
                 rfd_N_s (rows ! i) = None \<and> rfd_kg_s (rows ! i) = None) \<and>
              (0 < time_to_peak_s (rows ! i) \<longrightarrow>
                 rfd_N_s (rows ! i) =
                   Some (peak_value_N (rows ! i) / time_to_peak_s (rows ! i)) \<and>
                 rfd_kg_s (rows ! i) =
                   Some (peak_value_N (rows ! i) / time_to_peak_s (rows ! i) / (981 / 100)))))"
proof
  show "rfd_loop [0, 100, 200, 6000, 6100, 6200] [1, 2, 1, 0, 3, 0] [[1], [4]] [] =
     Inr [\<lparr> plateau_start_time = 100, peak_time = 100, time_to_peak_s = 0,
             peak_value_kg = 200 / 981, peak_value_N = 2,
             rfd_kg_s = None, rfd_N_s = None \<rparr>,
          \<lparr> plateau_start_time = 6000, peak_time = 6100, time_to_peak_s = 1 / 10,
             peak_value_kg = 300 / 981, peak_value_N = 3,
             rfd_kg_s = Some (3000 / 981), rfd_N_s = Some 30 \<rparr>]"
    by code_simp
next
  show "\<exists>rows. rfd_loop [0, 100, 200, 6000, 6100, 6200] [1, 2, 1, 0, 3, 0] [[1], [4]] [] = Inr rows \<and>
           length rows = length [[1], [4 :: nat]] \<and>
           (\<forall>i<length [[1], [4 :: nat]].
              rfd_row [0, 100, 200, 6000, 6100, 6200] [1, 2, 1, 0, 3, 0] ([[1], [4]] ! i)
                = Inr (rows ! i) \<and>
              (time_to_peak_s (rows ! i) \<le> 0 \<longrightarrow>
                 rfd_N_s (rows ! i) = None \<and> rfd_kg_s (rows ! i) = None) \<and>
              (0 < time_to_peak_s (rows ! i) \<longrightarrow>
                 rfd_N_s (rows ! i) =
                   Some (peak_value_N (rows ! i) / time_to_peak_s (rows ! i)) \<and>
                 rfd_kg_s (rows ! i) =
                   Some (peak_value_N (rows ! i) / time_to_peak_s (rows ! i) / (981 / 100))))"
    by (rule rfd_absent_unless_positive_time) simp_all
qed

text \<open>
  C9. Over the reals, converting a value from kg to newtons (line 27) and back (line 85)
  returns the value, and in every result row the peak value in newtons is 9.81 times the
  peak value in kg. Rounding of floating-point numbers is outside the model.
\<close>

theorem kg_newton_round_trip:
  "to_kg (to_newtons x) = x \<and>
   (rfd_row timestamps signal plateau = Inr row \<longrightarrow>
      peak_value_N row = (981 / 100) * peak_value_kg row)"
proof
  show "to_kg (to_newtons x) = x"
    by (simp add: to_kg_def to_newtons_def GRAVITY_def)
next
  show "rfd_row timestamps signal plateau = Inr row \<longrightarrow>
      peak_value_N row = (981 / 100) * peak_value_kg row"
  proof
    assume "rfd_row timestamps signal plateau = Inr row"
    from rfd_row_fields[OF this] obtain h
      where "peak_value_N row = signal ! h" "peak_value_kg row = signal ! h / GRAVITY"
      by blast
    then show "peak_value_N row = (981 / 100) * peak_value_kg row"
      by (simp add: GRAVITY_def)
  qed
qed

theorem kg_newton_round_trip_witness:
  "to_kg (to_newtons 5) = 5 \<and>
   rfd_row [0, 100, 200, 300, 400, 500, 600, 700, 800, 900]
     [0, 0, 0, 50, 0, 0, 0, 80, 0, 0] [3, 7] =
     Inr \<lparr> plateau_start_time = 200, peak_time = 700, time_to_peak_s = 1 / 2,
            peak_value_kg = 8000 / 981, peak_value_N = 80,
            rfd_kg_s = Some (16000 / 981), rfd_N_s = Some 160 \<rparr> \<and>
   (80 :: real) = (981 / 100) * (8000 / 981)"
proof -
  have run: "rfd_row [0, 100, 200, 300, 400, 500, 600, 700, 800, 900]
     [0, 0, 0, 50, 0, 0, 0, 80, 0, 0] [3, 7] =
     Inr \<lparr> plateau_start_time = 200, peak_time = 700, time_to_peak_s = 1 / 2,
            peak_value_kg = 8000 / 981, peak_value_N = 80,
            rfd_kg_s = Some (16000 / 981), rfd_N_s = Some 160 \<rparr>"
    by code_simp
  note rt = kg_newton_round_trip[of 5 "[0, 100, 200, 300, 400, 500, 600, 700, 800, 900]"
      "[0, 0, 0, 50, 0, 0, 0, 80, 0, 0]" "[3, 7]"
      "\<lparr> plateau_start_time = 200, peak_time = 700, time_to_peak_s = 1 / 2,
            peak_value_kg = 8000 / 981, peak_value_N = 80,
            rfd_kg_s = Some (16000 / 981), rfd_N_s = Some 160 \<rparr>"]
  from rt[THEN conjunct1] rt[THEN conjunct2, rule_format, OF run] run
  show ?thesis by simp
qed

section \<open>Onset, first peak and highest peak in order\<close>

lemma sorted_concat_member:
  "sorted (concat pls) \<Longrightarrow> pl \<in> set pls \<Longrightarrow> sorted pl"
  by (induction pls) (auto simp: sorted_append)

lemma sorted_hd_nth:
  assumes "sorted pl" and "k < length pl"
  shows "hd pl \<le> pl ! k"
proof -
  from assms(2) have "pl \<noteq> []" by auto
  then have "hd pl = pl ! 0" by (simp add: hd_conv_nth)
  with assms show ?thesis by (simp add: sorted_nth_mono)
qed

lemma plateau_onset_first_highest:
  assumes "plateau \<noteq> []" and "sorted plateau"
    and "\<forall>p\<in>set plateau. p < length signal"
  shows "\<exists>s h. start_idx signal plateau = Inr s \<and> highest_peak_idx signal plateau = Inr h \<and>
           s \<le> hd plateau \<and> hd plateau \<le> h"
proof -
  from assms(1,3) have "hd plateau < length signal" by simp
  from start_idx_at_most_first_peak[OF assms(1) this] obtain s
    where s: "start_idx signal plateau = Inr s" "s \<le> hd plateau" by blast
  from highest_peak_idx_in_plateau[OF assms(1,3)] obtain k
    where k: "k < length plateau" "highest_peak_idx signal plateau = Inr (plateau ! k)"
    by blast
  from sorted_hd_nth[OF assms(2) k(1)] s k show ?thesis by blast
qed

lemma row_time_to_peak_nonneg:
  assumes "plateau \<noteq> []" and "sorted plateau"
    and "\<forall>p\<in>set plateau. p < length signal"
    and "sorted ts"
    and "rfd_row ts signal plateau = Inr row"
  shows "0 \<le> time_to_peak_s row"
proof -
  from rfd_row_fields[OF assms(5)] obtain h s
    where h: "highest_peak_idx signal plateau = Inr h"
      and s: "start_idx signal plateau = Inr s"
      and hl: "h < length ts"
      and t: "time_to_peak_s row = (ts ! h - ts ! s) / 1000"
    by blast
  from plateau_onset_first_highest[OF assms(1,2,3)] h s have "s \<le> h" by auto
  with assms(4) hl have "ts ! s \<le> ts ! h" by (simp add: sorted_nth_mono)
  with t show ?thesis by simp
qed

text \<open>
  C10. For a non-empty ascending list of peaks that are positions of the signal (the peak
  finder returns them in ascending order), the grouping and the loop over the plateaus
  succeed, and for every plateau the onset is at most the first peak, which is at most the
  highest peak. When the timestamps are non-decreasing, the time to peak of every row is
  not negative.
\<close>

theorem onset_first_peak_highest_peak_order:
  assumes "peaks \<noteq> []" and "sorted peaks"
    and "\<forall>p\<in>set peaks. p < length signal"
    and "length timestamps = length signal"
  shows "\<exists>plateaus rows.
           group_plateaus timestamps peaks = Inr plateaus \<and>
           rfd_loop timestamps signal plateaus [] = Inr rows \<and>
           (\<forall>pl\<in>set plateaus. \<exists>s h.
              start_idx signal pl = Inr s \<and> highest_peak_idx signal pl = Inr h \<and>
              s \<le> hd pl \<and> hd pl \<le> h) \<and>
           (sorted timestamps \<longrightarrow> (\<forall>r\<in>set rows. 0 \<le> time_to_peak_s r))"
proof -
  from assms(3,4) have inr: "\<forall>p\<in>set peaks. p < length timestamps" by simp
  from group_plateaus_total[OF assms(1) inr] obtain pls
    where run: "group_plateaus timestamps peaks = Inr pls" ..
  have cc: "concat pls = peaks"
    using run by (rule group_plateaus_concat)
  have ne: "pl \<noteq> []" if "pl \<in> set pls" for pl
    using run that by (rule group_plateaus_nonempty)
  from assms(2) cc have sc: "sorted (concat pls)" by simp
  have srt: "sorted pl" if "pl \<in> set pls" for pl
    using sc that by (rule sorted_concat_member)
  have rng: "\<forall>p\<in>set pl. p < length signal" if "pl \<in> set pls" for pl
  proof
    fix p assume "p \<in> set pl"
    with that have "p \<in> set (concat pls)" by auto
    with cc assms(3) show "p < length signal" by simp
  qed
  have wf: "\<forall>pl\<in>set pls. pl \<noteq> [] \<and> (\<forall>p\<in>set pl. p < length signal)"
    using ne rng by blast
  from rfd_loop_pointwise[OF wf assms(4)] obtain rows
    where rows: "rfd_loop timestamps signal pls [] = Inr rows"
      and len: "length rows = length pls"
      and each: "\<forall>i<length pls. rfd_row timestamps signal (pls ! i) = Inr (rows ! i)"
    by blast
  have order: "\<exists>s h. start_idx signal pl = Inr s \<and> highest_peak_idx signal pl = Inr h \<and>
              s \<le> hd pl \<and> hd pl \<le> h" if "pl \<in> set pls" for pl
    using ne[OF that] srt[OF that] rng[OF that] by (rule plateau_onset_first_highest)
  have nonneg: "0 \<le> time_to_peak_s r" if st: "sorted timestamps" and r: "r \<in> set rows" for r
  proof -
    from r obtain i where i: "i < length rows" "r = rows ! i"
      by (auto simp: in_set_conv_nth)
    with len have il: "i < length pls" by simp
    then have mem: "pls ! i \<in> set pls" by simp
    from each il i have "rfd_row timestamps signal (pls ! i) = Inr r" by simp
    with ne[OF mem] srt[OF mem] rng[OF mem] st show ?thesis
      by (rule row_time_to_peak_nonneg)
  qed
  have all_order: "\<forall>pl\<in>set pls. \<exists>s h.
              start_idx signal pl = Inr s \<and> highest_peak_idx signal pl = Inr h \<and>
              s \<le> hd pl \<and> hd pl \<le> h"
    using order by (rule ballI)
  have all_nonneg: "sorted timestamps \<longrightarrow> (\<forall>r\<in>set rows. 0 \<le> time_to_peak_s r)"
    using nonneg by (intro impI ballI)
  have "group_plateaus timestamps peaks = Inr pls \<and>
           rfd_loop timestamps signal pls [] = Inr rows \<and>
           (\<forall>pl\<in>set pls. \<exists>s h.
              start_idx signal pl = Inr s \<and> highest_peak_idx signal pl = Inr h \<and>
              s \<le> hd pl \<and> hd pl \<le> h) \<and>
           (sorted timestamps \<longrightarrow> (\<forall>r\<in>set rows. 0 \<le> time_to_peak_s r))"
    using run rows all_order all_nonneg by (intro conjI)
  then show ?thesis
    by blast
qed

theorem onset_first_peak_highest_peak_order_witness:
  "analyse [0, 100, 200, 6000, 6100, 6200] [1, 2, 1, 0, 3, 0] [1, 4] =
     Inr [\<lparr> plateau_start_time = 100, peak_time = 100, time_to_peak_s = 0,
             peak_value_kg = 200 / 981, peak_value_N = 2,
             rfd_kg_s = None, rfd_N_s = None \<rparr>,
          \<lparr> plateau_start_time = 6000, peak_time = 6100, time_to_peak_s = 1 / 10,
             peak_value_kg = 300 / 981, peak_value_N = 3,
             rfd_kg_s = Some (3000 / 981), rfd_N_s = Some 30 \<rparr>] \<and>
   (\<exists>plateaus rows.
      group_plateaus [0, 100, 200, 6000, 6100, 6200] [1, 4] = Inr plateaus \<and>
      rfd_loop [0, 100, 200, 6000, 6100, 6200] [1, 2, 1, 0, 3, 0] plateaus [] = Inr rows \<and>
      (\<forall>pl\<in>set plateaus. \<exists>s h.
         start_idx [1, 2, 1, 0, 3, 0] pl = Inr s \<and>
         highest_peak_idx [1, 2, 1, 0, 3, 0] pl = Inr h \<and>
         s \<le> hd pl \<and> hd pl \<le> h) \<and>
      (sorted [0, 100, 200, 6000, 6100, 6200 :: real] \<longrightarrow>
         (\<forall>r\<in>set rows. 0 \<le> time_to_peak_s r)))"
proof
  show "analyse [0, 100, 200, 6000, 6100, 6200] [1, 2, 1, 0, 3, 0] [1, 4] =
     Inr [\<lparr> plateau_start_time = 100, peak_time = 100, time_to_peak_s = 0,
             peak_value_kg = 200 / 981, peak_value_N = 2,
             rfd_kg_s = None, rfd_N_s = None \<rparr>,
          \<lparr> plateau_start_time = 6000, peak_time = 6100, time_to_peak_s = 1 / 10,
             peak_value_kg = 300 / 981, peak_value_N = 3,
             rfd_kg_s = Some (3000 / 981), rfd_N_s = Some 30 \<rparr>]"
    by code_simp
next
  show "\<exists>plateaus rows.
      group_plateaus [0, 100, 200, 6000, 6100, 6200] [1, 4] = Inr plateaus \<and>
      rfd_loop [0, 100, 200, 6000, 6100, 6200] [1, 2, 1, 0, 3, 0] plateaus [] = Inr rows \<and>
      (\<forall>pl\<in>set plateaus. \<exists>s h.
         start_idx [1, 2, 1, 0, 3, 0] pl = Inr s \<and>
         highest_peak_idx [1, 2, 1, 0, 3, 0] pl = Inr h \<and>
         s \<le> hd pl \<and> hd pl \<le> h) \<and>
      (sorted [0, 100, 200, 6000, 6100, 6200 :: real] \<longrightarrow>
         (\<forall>r\<in>set rows. 0 \<le> time_to_peak_s r))"
    by (rule onset_first_peak_highest_peak_order) simp_all
qed

section \<open>The peak finder\<close>

lemma local_maxima_loop_stop:
  "\<not> i < i_max \<Longrightarrow> local_maxima_loop x i_max i midpoints = midpoints"
  by (simp add: local_maxima_loop.simps[of x i_max i midpoints])

lemma local_maxima_loop_skip:
  "i < i_max \<Longrightarrow> \<not> x ! (i - 1) < x ! i \<Longrightarrow>
   local_maxima_loop x i_max i midpoints = local_maxima_loop x i_max (i + 1) midpoints"
  by (simp add: local_maxima_loop.simps[of x i_max i midpoints])

lemma local_maxima_loop_no_fall:
  "i < i_max \<Longrightarrow> x ! (i - 1) < x ! i \<Longrightarrow>
   \<not> x ! look_ahead x i i_max (i + 1) < x ! i \<Longrightarrow>
   local_maxima_loop x i_max i midpoints = local_maxima_loop x i_max (i + 1) midpoints"
  by (simp add: local_maxima_loop.simps[of x i_max i midpoints] Let_def)

lemma local_maxima_loop_peak:
  "i < i_max \<Longrightarrow> x ! (i - 1) < x ! i \<Longrightarrow>
   x ! look_ahead x i i_max (i + 1) < x ! i \<Longrightarrow>
   local_maxima_loop x i_max i midpoints =
     local_maxima_loop x i_max (look_ahead x i i_max (i + 1) + 1)
       (midpoints @ [(i + (look_ahead x i i_max (i + 1) - 1)) div 2])"
  by (simp add: local_maxima_loop.simps[of x i_max i midpoints] Let_def)

lemma look_ahead_run:
  assumes "i < a" and "a \<le> i_max" and "\<forall>k. i \<le> k \<and> k < a \<longrightarrow> x ! k = x ! i"
  shows "a \<le> look_ahead x i i_max a \<and> look_ahead x i i_max a \<le> i_max \<and>
         (\<forall>k. i \<le> k \<and> k < look_ahead x i i_max a \<longrightarrow> x ! k = x ! i)"
  using assms
proof (induction x i i_max a rule: look_ahead.induct)
  case (1 x i i_max a)
  show ?case
  proof (cases "a < i_max \<and> x ! a = x ! i")
    case True
    then have step: "look_ahead x i i_max a = look_ahead x i i_max (a + 1)"
      by (simp add: look_ahead_step)
    have "\<forall>k. i \<le> k \<and> k < a + 1 \<longrightarrow> x ! k = x ! i"
    proof (intro allI impI)
      fix k assume k: "i \<le> k \<and> k < a + 1"
      show "x ! k = x ! i"
      proof (cases "k = a")
        case True
        with \<open>a < i_max \<and> x ! a = x ! i\<close> show ?thesis by simp
      next
        case False
        with k have "i \<le> k \<and> k < a" by simp
        then show ?thesis by (rule "1.prems"(3)[rule_format])
      qed
    qed
    moreover from "1.prems"(1) have "i < a + 1" by simp
    moreover from True have "a + 1 \<le> i_max" by simp
    ultimately have ih:
      "a + 1 \<le> look_ahead x i i_max (a + 1) \<and> look_ahead x i i_max (a + 1) \<le> i_max \<and>
         (\<forall>k. i \<le> k \<and> k < look_ahead x i i_max (a + 1) \<longrightarrow> x ! k = x ! i)"
      using "1.IH"[OF True] by blast
    show ?thesis
      unfolding step
    proof (intro conjI)
      from ih show "a \<le> look_ahead x i i_max (a + 1)" by linarith
      from ih show "look_ahead x i i_max (a + 1) \<le> i_max" by (rule conjunct2[THEN conjunct1])
      from ih show "\<forall>k. i \<le> k \<and> k < look_ahead x i i_max (a + 1) \<longrightarrow> x ! k = x ! i"
        by (rule conjunct2[THEN conjunct2])
    qed
  next
    case False
    then have stop: "look_ahead x i i_max a = a"
      by (rule look_ahead_stop)
    show ?thesis
      unfolding stop using "1.prems"(2,3) by blast
  qed
qed

text \<open>
  What the scan reports: the middle, rounded down, of a run of equal samples inside the
  signal whose neighbours on both sides are smaller.
\<close>

lemma flat_peak_found:
  assumes "0 < i" and "i < i_max" and "i_max = length x - 1"
    and "x ! (i - 1) < x ! i"
    and "x ! look_ahead x i i_max (i + 1) < x ! i"
  shows "flat_peak x ((i + (look_ahead x i i_max (i + 1) - 1)) div 2)"
proof -
  let ?a = "look_ahead x i i_max (i + 1)"
  let ?m = "(i + (?a - 1)) div 2"
  have single: "\<forall>k. i \<le> k \<and> k < i + 1 \<longrightarrow> x ! k = x ! i"
    by (auto simp: le_less_Suc_eq)
  have "i < i + 1" by simp
  moreover from assms(2) have "i + 1 \<le> i_max" by simp
  ultimately have all: "i + 1 \<le> ?a \<and> ?a \<le> i_max \<and> (\<forall>k. i \<le> k \<and> k < ?a \<longrightarrow> x ! k = x ! i)"
    using single by (rule look_ahead_run)
  then have run: "i + 1 \<le> ?a" "?a \<le> i_max" by linarith+
  from all have same: "x ! k = x ! i" if "i \<le> k \<and> k < ?a" for k
    using that by blast
  from run(1) have m: "i \<le> ?m" "?m \<le> ?a - 1" by simp_all
  with run(1) have "i \<le> ?m \<and> ?m < ?a" by linarith
  then have xm: "x ! ?m = x ! i" by (rule same)
  have "0 < i \<and> i \<le> ?m \<and> ?m \<le> ?a - 1 \<and> Suc (?a - 1) < length x \<and> ?m = (i + (?a - 1)) div 2 \<and>
        (\<forall>k. i \<le> k \<and> k \<le> ?a - 1 \<longrightarrow> x ! k = x ! ?m) \<and>
        x ! (i - 1) < x ! ?m \<and> x ! (?a - 1 + 1) < x ! ?m"
  proof (intro conjI)
    show "0 < i" by (rule assms(1))
    show "i \<le> ?m" by (rule m(1))
    show "?m \<le> ?a - 1" by (rule m(2))
    show "Suc (?a - 1) < length x" using run(1,2) assms(2,3) by simp
    show "?m = (i + (?a - 1)) div 2" ..
    show "\<forall>k. i \<le> k \<and> k \<le> ?a - 1 \<longrightarrow> x ! k = x ! ?m"
    proof (intro allI impI)
      fix k assume "i \<le> k \<and> k \<le> ?a - 1"
      with run(1) have "i \<le> k \<and> k < ?a" by linarith
      then have "x ! k = x ! i" by (rule same)
      with xm show "x ! k = x ! ?m" by simp
    qed
    show "x ! (i - 1) < x ! ?m" using assms(4) xm by simp
    show "x ! (?a - 1 + 1) < x ! ?m" using assms(5) xm run(1) by simp
  qed
  then show ?thesis
    unfolding flat_peak_def by blast
qed

lemma local_maxima_loop_flat_peaks:
  assumes "0 < i" and "i_max = length x - 1"
    and "\<forall>m\<in>set midpoints. flat_peak x m"
  shows "\<forall>m\<in>set (local_maxima_loop x i_max i midpoints). flat_peak x m"
  using assms
proof (induction x i_max i midpoints rule: local_maxima_loop.induct)
  case (1 x i_max i midpoints)
  show ?case
  proof (cases "i < i_max")
    case False
    with "1.prems"(3) show ?thesis by (simp add: local_maxima_loop_stop)
  next
    case in_range: True
    show ?thesis
    proof (cases "x ! (i - 1) < x ! i")
      case False
      with in_range "1.IH"(3) "1.prems" show ?thesis
        by (simp add: local_maxima_loop_skip)
    next
      case rise: True
      show ?thesis
      proof (cases "x ! look_ahead x i i_max (i + 1) < x ! i")
        case False
        with in_range rise "1.IH"(2)[OF in_range rise refl] "1.prems" show ?thesis
          by (simp add: local_maxima_loop_no_fall)
      next
        case fall: True
        have "flat_peak x ((i + (look_ahead x i i_max (i + 1) - 1)) div 2)"
          using "1.prems"(1) in_range "1.prems"(2) rise fall by (rule flat_peak_found)
        with "1.prems"(3)
        have "\<forall>m\<in>set (midpoints @ [(i + (look_ahead x i i_max (i + 1) - 1)) div 2]).
                flat_peak x m"
          by simp
        with "1.IH"(1)[OF in_range rise refl fall] "1.prems"(2) in_range rise fall
        show ?thesis
          by (simp add: local_maxima_loop_peak)
      qed
    qed
  qed
qed

lemma find_peaks_flat_peaks:
  "m \<in> set (find_peaks x) \<Longrightarrow> flat_peak x m"
  using local_maxima_loop_flat_peaks[of 1 "length x - 1" x "[]"]
  by (simp add: find_peaks_def)

text \<open>
  C8, as the claim states it, fails: in the signal 0, 1, 1, 0 the peak finder reports
  position 1, whose force equals the force of its right neighbour.
\<close>

theorem peak_above_both_neighbours_counterexample:
  "find_peaks [0, 1, 1, 0] = [1] \<and> \<not> [0, 1, 1, 0 :: real] ! 2 < [0, 1, 1, 0] ! 1"
proof
  show "find_peaks [0, 1, 1, 0] = [1]"
    by code_simp
next
  show "\<not> [0, 1, 1, 0 :: real] ! 2 < [0, 1, 1, 0] ! 1"
    by simp
qed

text \<open>
  C8, amended. Every position the peak finder returns is inside the signal (neither the
  first nor the last sample), and its force is not smaller than the force of either
  neighbour: it is the middle, rounded down, of a run of equal samples whose neighbours on
  both sides are smaller. When the run is a single sample, the position is greater than
  both of its neighbours.
\<close>

theorem peak_is_middle_of_flat_maximum:
  assumes "m \<in> set (find_peaks x)"
  shows "0 < m \<and> Suc m < length x \<and> x ! (m - 1) \<le> x ! m \<and> x ! (m + 1) \<le> x ! m \<and>
         (\<exists>l r. 0 < l \<and> l \<le> m \<and> m \<le> r \<and> Suc r < length x \<and> m = (l + r) div 2 \<and>
                (\<forall>k. l \<le> k \<and> k \<le> r \<longrightarrow> x ! k = x ! m) \<and>
                x ! (l - 1) < x ! m \<and> x ! (r + 1) < x ! m \<and>
                (l = r \<longrightarrow> x ! (m - 1) < x ! m \<and> x ! (m + 1) < x ! m))"
proof -
  from find_peaks_flat_peaks[OF assms] obtain l r
    where lr: "0 < l" "l \<le> m" "m \<le> r" "Suc r < length x" "m = (l + r) div 2"
      and eq: "\<forall>k. l \<le> k \<and> k \<le> r \<longrightarrow> x ! k = x ! m"
      and left: "x ! (l - 1) < x ! m" and right: "x ! (r + 1) < x ! m"
    unfolding flat_peak_def by blast
  have before: "x ! (m - 1) \<le> x ! m"
  proof (cases "m = l")
    case True
    with left show ?thesis by simp
  next
    case False
    with lr(2,3) have "l \<le> m - 1 \<and> m - 1 \<le> r" by linarith
    then have "x ! (m - 1) = x ! m" by (rule eq[rule_format])
    then show ?thesis by simp
  qed
  have after: "x ! (m + 1) \<le> x ! m"
  proof (cases "m = r")
    case True
    with right show ?thesis by simp
  next
    case False
    with lr(2,3) have "l \<le> m + 1 \<and> m + 1 \<le> r" by linarith
    then have "x ! (m + 1) = x ! m" by (rule eq[rule_format])
    then show ?thesis by simp
  qed
  have single: "l = r \<longrightarrow> x ! (m - 1) < x ! m \<and> x ! (m + 1) < x ! m"
    using lr(2,3) left right by auto
  from lr(1-4) have "0 < m" "Suc m < length x" by linarith+
  moreover have "\<exists>l r. 0 < l \<and> l \<le> m \<and> m \<le> r \<and> Suc r < length x \<and> m = (l + r) div 2 \<and>
                (\<forall>k. l \<le> k \<and> k \<le> r \<longrightarrow> x ! k = x ! m) \<and>
                x ! (l - 1) < x ! m \<and> x ! (r + 1) < x ! m \<and>
                (l = r \<longrightarrow> x ! (m - 1) < x ! m \<and> x ! (m + 1) < x ! m)"
    using lr eq left right single by blast
  ultimately show ?thesis using before after by simp
qed

theorem peak_is_middle_of_flat_maximum_witness:
  "find_peaks [0, 1, 1, 1, 0] = [2] \<and>
   (0 < (2 :: nat) \<and> Suc 2 < length [0, 1, 1, 1, 0 :: real] \<and>
    [0, 1, 1, 1, 0 :: real] ! (2 - 1) \<le> [0, 1, 1, 1, 0] ! 2 \<and>
    [0, 1, 1, 1, 0 :: real] ! (2 + 1) \<le> [0, 1, 1, 1, 0] ! 2)"
proof -
  have run: "find_peaks [0, 1, 1, 1, 0] = [2]"
    by code_simp
  then have "2 \<in> set (find_peaks [0, 1, 1, 1, 0])"
    by simp
  from peak_is_middle_of_flat_maximum[OF this] run show ?thesis
    by simp
qed

text \<open>
  The peaks come out in ascending order and inside the signal, which is what the statements
  about plateaus and rows assume of a list of peaks.
\<close>

lemma local_maxima_loop_sorted:
  assumes "sorted midpoints" and "\<forall>m\<in>set midpoints. m < i"
  shows "sorted (local_maxima_loop x i_max i midpoints)"
  using assms
proof (induction x i_max i midpoints rule: local_maxima_loop.induct)
  case (1 x i_max i midpoints)
  from "1.prems"(2) have next_i: "\<forall>m\<in>set midpoints. m < i + 1"
    by auto
  show ?case
  proof (cases "i < i_max")
    case False
    with "1.prems"(1) show ?thesis by (simp add: local_maxima_loop_stop)
  next
    case in_range: True
    show ?thesis
    proof (cases "x ! (i - 1) < x ! i")
      case False
      with in_range "1.IH"(3)[OF in_range False "1.prems"(1) next_i] show ?thesis
        by (simp add: local_maxima_loop_skip)
    next
      case rise: True
      show ?thesis
      proof (cases "x ! look_ahead x i i_max (i + 1) < x ! i")
        case False
        with in_range rise "1.IH"(2)[OF in_range rise refl False "1.prems"(1) next_i]
        show ?thesis
          by (simp add: local_maxima_loop_no_fall)
      next
        case fall: True
        let ?a = "look_ahead x i i_max (i + 1)"
        let ?m = "(i + (?a - 1)) div 2"
        have a: "i + 1 \<le> ?a" by (rule look_ahead_ge)
        then have m: "i \<le> ?m" "?m < ?a + 1" by simp_all
        from "1.prems" m(1) have "sorted (midpoints @ [?m])"
          by (auto simp: sorted_append)
        moreover from "1.prems"(2) a m(2) have "\<forall>q\<in>set (midpoints @ [?m]). q < ?a + 1"
          by auto
        ultimately have "sorted (local_maxima_loop x i_max (?a + 1) (midpoints @ [?m]))"
          by (rule "1.IH"(1)[OF in_range rise refl fall])
        with in_range rise fall show ?thesis
          by (simp add: local_maxima_loop_peak)
      qed
    qed
  qed
qed

lemma find_peaks_sorted: "sorted (find_peaks x)"
  using local_maxima_loop_sorted[of "[]" 1 x "length x - 1"]
  by (simp add: find_peaks_def)

lemma find_peaks_in_range:
  assumes "m \<in> set (find_peaks x)"
  shows "m < length x"
proof -
  from find_peaks_flat_peaks[OF assms] obtain r where "m \<le> r" "Suc r < length x"
    unfolding flat_peak_def by blast
  then show ?thesis by simp
qed

section \<open>The recording of the example and recordings without peaks\<close>

text \<open>
  C7. For the forces 0, 0, 0, 50, 0, 0, 0, 80, 0, 0 at the timestamps 0, 100, ..., 900 ms the
  peak finder returns positions 3 and 7, the grouping returns the single plateau of both,
  the highest peak is position 7, the onset is position 2, the time to peak is 0.5 s and
  the rate of force development is 160 N/s; the analysis returns that one row.
\<close>

theorem two_peaks_one_plateau_example:
  "find_peaks [0, 0, 0, 50, 0, 0, 0, 80, 0, 0] = [3, 7] \<and>
   group_plateaus [0, 100, 200, 300, 400, 500, 600, 700, 800, 900] [3, 7] = Inr [[3, 7]] \<and>
   highest_peak_idx [0, 0, 0, 50, 0, 0, 0, 80, 0, 0] [3, 7] = Inr 7 \<and>
   start_idx [0, 0, 0, 50, 0, 0, 0, 80, 0, 0] [3, 7] = Inr 2 \<and>
   time_to_peak ([0, 100, 200, 300, 400, 500, 600, 700, 800, 900] ! 2)
     ([0, 100, 200, 300, 400, 500, 600, 700, 800, 900] ! 7) = 1 / 2 \<and>
   rfd ([0, 0, 0, 50, 0, 0, 0, 80, 0, 0] ! 7) (1 / 2) = Some 160 \<and>
   analyse [0, 100, 200, 300, 400, 500, 600, 700, 800, 900]
     [0, 0, 0, 50, 0, 0, 0, 80, 0, 0] (find_peaks [0, 0, 0, 50, 0, 0, 0, 80, 0, 0]) =
     Inr [\<lparr> plateau_start_time = 200, peak_time = 700, time_to_peak_s = 1 / 2,
             peak_value_kg = 8000 / 981, peak_value_N = 80,
             rfd_kg_s = Some (16000 / 981), rfd_N_s = Some 160 \<rparr>]"
proof (intro conjI)
  show "find_peaks [0, 0, 0, 50, 0, 0, 0, 80, 0, 0] = [3, 7]"
    by code_simp
  show "group_plateaus [0, 100, 200, 300, 400, 500, 600, 700, 800, 900] [3, 7] = Inr [[3, 7]]"
    by code_simp
  show "highest_peak_idx [0, 0, 0, 50, 0, 0, 0, 80, 0, 0] [3, 7] = Inr 7"
    by code_simp
  show "start_idx [0, 0, 0, 50, 0, 0, 0, 80, 0, 0] [3, 7] = Inr 2"
    by code_simp
  show "time_to_peak ([0, 100, 200, 300, 400, 500, 600, 700, 800, 900] ! 2)
     ([0, 100, 200, 300, 400, 500, 600, 700, 800, 900] ! 7) = 1 / 2"
    by (simp add: time_to_peak_def)
  show "rfd ([0, 0, 0, 50, 0, 0, 0, 80, 0, 0] ! 7) (1 / 2) = Some 160"
    by (simp add: rfd_def)
  show "analyse [0, 100, 200, 300, 400, 500, 600, 700, 800, 900]
     [0, 0, 0, 50, 0, 0, 0, 80, 0, 0] (find_peaks [0, 0, 0, 50, 0, 0, 0, 80, 0, 0]) =
     Inr [\<lparr> plateau_start_time = 200, peak_time = 700, time_to_peak_s = 1 / 2,
             peak_value_kg = 8000 / 981, peak_value_N = 80,
             rfd_kg_s = Some (16000 / 981), rfd_N_s = Some 160 \<rparr>]"
    by code_simp
qed

text \<open>
  C2. A recording of fewer than three samples has no peak, and without a peak line 46
  raises \<^verbatim>\<open>IndexError\<close>: the analysis ends with the exception and returns no result
  set. The recording of two samples 1 kg and 2 kg at 0 ms and 100 ms is such an input.
\<close>

theorem no_peaks_raises_index_error:
  "find_peaks [] = [] \<and> find_peaks [a] = [] \<and> find_peaks [a, b] = [] \<and>
   group_plateaus timestamps [] = Inl IndexError \<and>
   analyse timestamps signal [] = Inl IndexError \<and>
   climbing_analysis [0, 100] [1, 2] = Inl IndexError"
proof (intro conjI)
  show "find_peaks [] = []"
    by (simp add: find_peaks_def local_maxima_loop_stop)
  show "find_peaks [a] = []"
    by (simp add: find_peaks_def local_maxima_loop_stop)
  show "find_peaks [a, b] = []"
    by (simp add: find_peaks_def local_maxima_loop_stop)
  show "group_plateaus timestamps [] = Inl IndexError"
    by (simp add: group_plateaus_def)
  show "analyse timestamps signal [] = Inl IndexError"
    by (simp add: analyse_def group_plateaus_def)
  show "climbing_analysis [0, 100] [1, 2] = Inl IndexError"
    by code_simp
qed

end
